theory Spec2Isabelle
  imports Main
begin

section \<open>Hotel reservation system: values, files and the world\<close>

text \<open>
  The program keeps three collections (hotels, customers, reservations), each in a JSON
  file of its own. Every operation loads the collections it needs with \<open>load_data\<close>,
  changes them in memory and writes them back with \<open>save_data\<close>.

  A collection is a Python dict from an id (a string) to a record, and a record is a dict
  from field names to values. Both are maps here. The field values are the JSON scalars
  the callers pass in: \<open>None\<close>, booleans, unbounded integers and strings (floating-point
  numbers and nested containers are outside the model).
\<close>

datatype jval = JNull | JBool bool | JInt int | JStr string

type_synonym jobj = "string \<rightharpoonup> jval"

type_synonym store = "string \<rightharpoonup> jobj"

text \<open>
  The exceptions of the program: the two that \<open>load_data\<close> catches, the one that reading
  a file with \<open>encoding='utf-8'\<close> raises on bytes that are not UTF-8, and the two that
  indexing a record and arithmetic on a field raise.
\<close>

datatype error = JSONDecodeError | FileNotFoundError | UnicodeDecodeError | KeyError | TypeError

text \<open>
  A file is described by its content, up to the JSON value it denotes: it does not exist,
  it holds a JSON document (a collection), it holds text that is not JSON, or it holds
  bytes that are not UTF-8 text. \<open>json.dump\<close> followed by \<open>json.load\<close> is taken to be
  exact on collections of records with scalar fields, which is the contract of the library.
\<close>

datatype file_content = Missing | Json store | Garbled | Undecodable

text \<open>
  The world is the file system, the lines printed so far, and the journal of the calls of
  \<open>save_data\<close> (path and data, oldest first). The journal is what tells a call that saved
  nothing from a call that saved the same data again.
\<close>

record world =
  files :: "string \<Rightarrow> file_content"
  stdout :: "string list"
  saves :: "(string \<times> store) list"

definition HOTELS_FILE :: string where
  "HOTELS_FILE = ''hotels.json''"

definition CUSTOMERS_FILE :: string where
  "CUSTOMERS_FILE = ''customers.json''"

definition RESERVATIONS_FILE :: string where
  "RESERVATIONS_FILE = ''reservations.json''"

definition print_line :: "string \<Rightarrow> world \<Rightarrow> world" where
  "print_line s w = w\<lparr>stdout := stdout w @ [s]\<rparr>"

subsection \<open>Python's arithmetic on field values\<close>

text \<open>
  \<open>bool\<close> is a subclass of \<open>int\<close> in Python: \<open>False == 0\<close>, \<open>True - 1 == 0\<close>. A string or
  \<open>None\<close> is never equal to a number, and adding a number to it raises \<open>TypeError\<close>.
\<close>

fun as_int :: "jval \<Rightarrow> int option" where
  "as_int (JInt n) = Some n"
| "as_int (JBool b) = Some (if b then 1 else 0)"
| "as_int JNull = None"
| "as_int (JStr s) = None"

definition py_eq_int :: "jval \<Rightarrow> int \<Rightarrow> bool" where
  "py_eq_int v n = (as_int v = Some n)"

definition py_sub_int :: "jval \<Rightarrow> int \<Rightarrow> error + jval" where
  "py_sub_int v n = (case as_int v of None \<Rightarrow> Inl TypeError | Some m \<Rightarrow> Inr (JInt (m - n)))"

definition py_add_int :: "jval \<Rightarrow> int \<Rightarrow> error + jval" where
  "py_add_int v n = (case as_int v of None \<Rightarrow> Inl TypeError | Some m \<Rightarrow> Inr (JInt (m + n)))"

subsection \<open>Persistence: \<open>load_data\<close> and \<open>save_data\<close>\<close>

definition path_exists :: "string \<Rightarrow> world \<Rightarrow> bool" where
  "path_exists file_path w = (files w file_path \<noteq> Missing)"

text \<open>\<open>open(file_path, 'r', encoding='utf-8')\<close> and \<open>json.load\<close> on the open file.\<close>

fun read_json :: "file_content \<Rightarrow> error + store" where
  "read_json Missing = Inl FileNotFoundError"
| "read_json (Json d) = Inr d"
| "read_json Garbled = Inl JSONDecodeError"
| "read_json Undecodable = Inl UnicodeDecodeError"

definition load_data :: "string \<Rightarrow> world \<Rightarrow> (error + store) \<times> world" where
  "load_data file_path w =
     (if path_exists file_path w then
        (case read_json (files w file_path) of
           Inr d \<Rightarrow> (Inr d, w)
         | Inl e \<Rightarrow>
             if e = JSONDecodeError \<or> e = FileNotFoundError
             then (Inr Map.empty,
                   print_line (''Error reading '' @ file_path @ ''. Initializing empty data.'') w)
             else (Inl e, w))
      else (Inr Map.empty, w))"

definition save_data :: "string \<Rightarrow> store \<Rightarrow> world \<Rightarrow> world" where
  "save_data file_path d w =
     w\<lparr>files := (files w)(file_path := Json d), saves := saves w @ [(file_path, d)]\<rparr>"

subsection \<open>Hotels\<close>

text \<open>
  The three classes have attributes of the same name (\<open>hotel_id\<close>, \<open>customer_id\<close>,
  \<open>name\<close>); the record fields carry the class name where they would clash. The id that
  \<open>str(uuid.uuid4())\<close> draws is an argument of the constructor and of the operation that
  calls it.
\<close>

record hotel =
  hotel_id :: string
  hotel_name :: jval
  hotel_location :: jval
  hotel_rooms :: jval
  hotel_available_rooms :: jval

definition Hotel_init :: "string \<Rightarrow> jval \<Rightarrow> jval \<Rightarrow> jval \<Rightarrow> hotel" where
  "Hotel_init uuid4 name location rooms =
     \<lparr>hotel_id = uuid4, hotel_name = name, hotel_location = location,
      hotel_rooms = rooms, hotel_available_rooms = rooms\<rparr>"

definition hotel_to_dict :: "hotel \<Rightarrow> jobj" where
  "hotel_to_dict h =
     [''hotel_id'' \<mapsto> JStr (hotel_id h),
      ''name'' \<mapsto> hotel_name h,
      ''location'' \<mapsto> hotel_location h,
      ''rooms'' \<mapsto> hotel_rooms h,
      ''available_rooms'' \<mapsto> hotel_available_rooms h]"

definition create_hotel ::
  "string \<Rightarrow> jval \<Rightarrow> jval \<Rightarrow> jval \<Rightarrow> world \<Rightarrow> (error + hotel) \<times> world" where
  "create_hotel uuid4 name location rooms w =
     (case load_data HOTELS_FILE w of
        (Inl e, w1) \<Rightarrow> (Inl e, w1)
      | (Inr hotels, w1) \<Rightarrow>
          (let new_hotel = Hotel_init uuid4 name location rooms;
               hotels' = hotels(hotel_id new_hotel \<mapsto> hotel_to_dict new_hotel)
           in (Inr new_hotel, save_data HOTELS_FILE hotels' w1)))"

definition delete_hotel :: "string \<Rightarrow> world \<Rightarrow> (error + bool) \<times> world" where
  "delete_hotel hid w =
     (case load_data HOTELS_FILE w of
        (Inl e, w1) \<Rightarrow> (Inl e, w1)
      | (Inr hotels, w1) \<Rightarrow>
          (if hotels hid \<noteq> None
           then (Inr True, save_data HOTELS_FILE (hotels(hid := None)) w1)
           else (Inr False, w1)))"

definition display_hotels :: "world \<Rightarrow> (error + store) \<times> world" where
  "display_hotels w = load_data HOTELS_FILE w"

subsection \<open>Customers\<close>

record customer =
  customer_id :: string
  customer_name :: jval
  customer_email :: jval

definition Customer_init :: "string \<Rightarrow> jval \<Rightarrow> jval \<Rightarrow> customer" where
  "Customer_init uuid4 name email =
     \<lparr>customer_id = uuid4, customer_name = name, customer_email = email\<rparr>"

definition customer_to_dict :: "customer \<Rightarrow> jobj" where
  "customer_to_dict c =
     [''customer_id'' \<mapsto> JStr (customer_id c),
      ''name'' \<mapsto> customer_name c,
      ''email'' \<mapsto> customer_email c]"

definition create_customer ::
  "string \<Rightarrow> jval \<Rightarrow> jval \<Rightarrow> world \<Rightarrow> (error + customer) \<times> world" where
  "create_customer uuid4 name email w =
     (case load_data CUSTOMERS_FILE w of
        (Inl e, w1) \<Rightarrow> (Inl e, w1)
      | (Inr customers, w1) \<Rightarrow>
          (let new_customer = Customer_init uuid4 name email;
               customers' = customers(customer_id new_customer \<mapsto> customer_to_dict new_customer)
           in (Inr new_customer, save_data CUSTOMERS_FILE customers' w1)))"

definition delete_customer :: "string \<Rightarrow> world \<Rightarrow> (error + bool) \<times> world" where
  "delete_customer cid w =
     (case load_data CUSTOMERS_FILE w of
        (Inl e, w1) \<Rightarrow> (Inl e, w1)
      | (Inr customers, w1) \<Rightarrow>
          (if customers cid \<noteq> None
           then (Inr True, save_data CUSTOMERS_FILE (customers(cid := None)) w1)
           else (Inr False, w1)))"

definition display_customers :: "world \<Rightarrow> (error + store) \<times> world" where
  "display_customers w = load_data CUSTOMERS_FILE w"

subsection \<open>Reservations\<close>

record reservation =
  reservation_id :: string
  reservation_customer_id :: jval
  reservation_hotel_id :: string

definition Reservation_init :: "string \<Rightarrow> jval \<Rightarrow> string \<Rightarrow> reservation" where
  "Reservation_init uuid4 cid hid =
     \<lparr>reservation_id = uuid4, reservation_customer_id = cid, reservation_hotel_id = hid\<rparr>"

definition reservation_to_dict :: "reservation \<Rightarrow> jobj" where
  "reservation_to_dict r =
     [''reservation_id'' \<mapsto> JStr (reservation_id r),
      ''customer_id'' \<mapsto> reservation_customer_id r,
      ''hotel_id'' \<mapsto> JStr (reservation_hotel_id r)]"

text \<open>
  \<open>create_reservation\<close>: both collections are loaded first. The guard reads
  \<open>hotels[hotel_id]["available_rooms"]\<close> only when the hotel is there, and that read raises
  \<open>KeyError\<close> on a record without the field. The hotels are saved before the reservation
  is built and the reservations are saved.
\<close>

definition create_reservation ::
  "string \<Rightarrow> jval \<Rightarrow> string \<Rightarrow> world \<Rightarrow> (error + reservation option) \<times> world" where
  "create_reservation uuid4 cid hid w =
     (case load_data RESERVATIONS_FILE w of
        (Inl e, w1) \<Rightarrow> (Inl e, w1)
      | (Inr reservations, w1) \<Rightarrow>
     (case load_data HOTELS_FILE w1 of
        (Inl e, w2) \<Rightarrow> (Inl e, w2)
      | (Inr hotels, w2) \<Rightarrow>
     (case hotels hid of
        None \<Rightarrow> (Inr None, print_line ''Error: Hotel not found or no available rooms.'' w2)
      | Some h \<Rightarrow>
     (case h ''available_rooms'' of
        None \<Rightarrow> (Inl KeyError, w2)
      | Some v \<Rightarrow>
          if py_eq_int v 0
          then (Inr None, print_line ''Error: Hotel not found or no available rooms.'' w2)
          else
            (case py_sub_int v 1 of
               Inl e \<Rightarrow> (Inl e, w2)
             | Inr v' \<Rightarrow>
                 (let hotels' = hotels(hid \<mapsto> h(''available_rooms'' \<mapsto> v'));
                      w3 = save_data HOTELS_FILE hotels' w2;
                      new_reservation = Reservation_init uuid4 cid hid;
                      reservations' = reservations(reservation_id new_reservation \<mapsto>
                                        reservation_to_dict new_reservation);
                      w4 = save_data RESERVATIONS_FILE reservations' w3
                  in (Inr (Some new_reservation), w4)))))))"

text \<open>
  \<open>hotel_id in hotels\<close> for the value read from the reservation record: the keys of a
  loaded collection are strings, so only a string can be among them.
\<close>

fun key_in :: "jval \<Rightarrow> store \<Rightarrow> string option" where
  "key_in (JStr s) hotels = (if hotels s \<noteq> None then Some s else None)"
| "key_in JNull hotels = None"
| "key_in (JBool b) hotels = None"
| "key_in (JInt n) hotels = None"

text \<open>
  The first half of \<open>cancel_reservation\<close>: the availability of the reservation's hotel is
  put back and the hotels are saved, when the hotel is still there.
\<close>

definition restore_room :: "jval \<Rightarrow> store \<Rightarrow> world \<Rightarrow> (error + unit) \<times> world" where
  "restore_room hotel_id_value hotels w =
     (case key_in hotel_id_value hotels of
        None \<Rightarrow> (Inr (), w)
      | Some hid \<Rightarrow>
          (case hotels hid of
             None \<Rightarrow> (Inl KeyError, w)
           | Some h \<Rightarrow>
               (case h ''available_rooms'' of
                  None \<Rightarrow> (Inl KeyError, w)
                | Some v \<Rightarrow>
                    (case py_add_int v 1 of
                       Inl e \<Rightarrow> (Inl e, w)
                     | Inr v' \<Rightarrow>
                         (Inr (), save_data HOTELS_FILE
                                   (hotels(hid \<mapsto> h(''available_rooms'' \<mapsto> v'))) w)))))"

definition cancel_reservation :: "string \<Rightarrow> world \<Rightarrow> (error + bool) \<times> world" where
  "cancel_reservation rid w =
     (case load_data RESERVATIONS_FILE w of
        (Inl e, w1) \<Rightarrow> (Inl e, w1)
      | (Inr reservations, w1) \<Rightarrow>
     (case load_data HOTELS_FILE w1 of
        (Inl e, w2) \<Rightarrow> (Inl e, w2)
      | (Inr hotels, w2) \<Rightarrow>
     (case reservations rid of
        None \<Rightarrow> (Inr False, w2)
      | Some r \<Rightarrow>
     (case r ''hotel_id'' of
        None \<Rightarrow> (Inl KeyError, w2)
      | Some hotel_id_value \<Rightarrow>
          (case restore_room hotel_id_value hotels w2 of
             (Inl e, w3) \<Rightarrow> (Inl e, w3)
           | (Inr u, w3) \<Rightarrow>
               (Inr True, save_data RESERVATIONS_FILE (reservations(rid := None)) w3))))))"

subsection \<open>Sequences of calls\<close>

text \<open>
  Sequential access is a list of calls run one after the other from a world. A call that
  raises leaves the world as it was when the exception left the operation, and the next
  call runs from there. Each creating call carries the id that \<open>uuid4\<close> draws in it.
\<close>

datatype call =
    CreateHotel string jval jval jval
  | DeleteHotel string
  | CreateCustomer string jval jval
  | DeleteCustomer string
  | CreateReservation string jval string
  | CancelReservation string

fun step :: "call \<Rightarrow> world \<Rightarrow> world" where
  "step (CreateHotel uuid4 name location rooms) w = snd (create_hotel uuid4 name location rooms w)"
| "step (DeleteHotel hid) w = snd (delete_hotel hid w)"
| "step (CreateCustomer uuid4 name email) w = snd (create_customer uuid4 name email w)"
| "step (DeleteCustomer cid) w = snd (delete_customer cid w)"
| "step (CreateReservation uuid4 cid hid) w = snd (create_reservation uuid4 cid hid w)"
| "step (CancelReservation rid) w = snd (cancel_reservation rid w)"

fun run :: "call list \<Rightarrow> world \<Rightarrow> world" where
  "run [] w = w"
| "run (c # cs) w = run cs (step c w)"

fun drawn :: "call \<Rightarrow> string list" where
  "drawn (CreateHotel uuid4 name location rooms) = [uuid4]"
| "drawn (CreateCustomer uuid4 name email) = [uuid4]"
| "drawn (CreateReservation uuid4 cid hid) = [uuid4]"
| "drawn (DeleteHotel hid) = []"
| "drawn (DeleteCustomer cid) = []"
| "drawn (CancelReservation rid) = []"

text \<open>
  \<open>uuid4\<close> is taken to draw an id that it has not drawn before: the ids of a sequence of
  calls are pairwise different.
\<close>

definition fresh_ids :: "call list \<Rightarrow> bool" where
  "fresh_ids cs = distinct (concat (map drawn cs))"

text \<open>The empty stores: no file exists, nothing was printed or saved.\<close>

definition world0 :: world where
  "world0 = \<lparr>files = (\<lambda>p. Missing), stdout = [], saves = []\<rparr>"

subsection \<open>Observations\<close>

text \<open>
  A file is readable when reading it does not raise past \<open>load_data\<close>; the collection of a
  readable file is what \<open>load_data\<close> returns for it.
\<close>

definition readable :: "file_content \<Rightarrow> bool" where
  "readable f = (f \<noteq> Undecodable)"

fun collection :: "file_content \<Rightarrow> store" where
  "collection (Json d) = d"
| "collection Missing = Map.empty"
| "collection Garbled = Map.empty"
| "collection Undecodable = Map.empty"

definition hotels_of :: "world \<Rightarrow> store" where
  "hotels_of w = collection (files w HOTELS_FILE)"

definition customers_of :: "world \<Rightarrow> store" where
  "customers_of w = collection (files w CUSTOMERS_FILE)"

definition reservations_of :: "world \<Rightarrow> store" where
  "reservations_of w = collection (files w RESERVATIONS_FILE)"

definition field :: "store \<Rightarrow> string \<Rightarrow> string \<Rightarrow> jval option" where
  "field d k f = (case d k of None \<Rightarrow> None | Some r \<Rightarrow> r f)"

definition available :: "world \<Rightarrow> string \<Rightarrow> jval option" where
  "available w hid = field (hotels_of w) hid ''available_rooms''"

text \<open>
  The bound \<open>0 \<le> available_rooms \<le> rooms\<close> on the record of a hotel; it is read as false on
  a record whose two fields are not both integers.
\<close>

definition in_range :: "jobj \<Rightarrow> bool" where
  "in_range h =
     (case (h ''available_rooms'', h ''rooms'') of
        (Some (JInt a), Some (JInt r)) \<Rightarrow> 0 \<le> a \<and> a \<le> r
      | _ \<Rightarrow> False)"

definition hotel_in_range :: "world \<Rightarrow> string \<Rightarrow> bool" where
  "hotel_in_range w hid = (case hotels_of w hid of None \<Rightarrow> True | Some h \<Rightarrow> in_range h)"

text \<open>The file system after the saves of a journal, in order, from a file system.\<close>

fun replay :: "(string \<times> store) list \<Rightarrow> (string \<Rightarrow> file_content) \<Rightarrow> (string \<Rightarrow> file_content)" where
  "replay [] fs = fs"
| "replay ((p, d) # js) fs = replay js (fs(p := Json d))"

text \<open>The reservations of a collection that refer to a hotel.\<close>

definition refs :: "store \<Rightarrow> string \<Rightarrow> string set" where
  "refs R hid = {rid. \<exists>r. R rid = Some r \<and> r ''hotel_id'' = Some (JStr hid)}"

text \<open>
  The world after the two loads that open \<open>create_reservation\<close> and
  \<open>cancel_reservation\<close>: the reservations first, then the hotels.
\<close>

definition after_loads :: "world \<Rightarrow> world" where
  "after_loads w = snd (load_data HOTELS_FILE (snd (load_data RESERVATIONS_FILE w)))"

subsection \<open>The accounting of rooms\<close>

text \<open>
  What sequential access keeps true of the two stores, for the set \<open>U\<close> of the ids drawn
  so far: every key and every hotel a reservation refers to is a drawn id, the
  reservations are finitely many, and on every hotel whose \<open>rooms\<close> is an integer, the
  available rooms and the reservations that refer to the hotel add up to \<open>rooms\<close>, with no
  negative availability when \<open>rooms\<close> is not negative.
\<close>

definition accounted_stores :: "string set \<Rightarrow> store \<Rightarrow> store \<Rightarrow> bool" where
  "accounted_stores U H R =
     (dom H \<subseteq> U \<and> dom R \<subseteq> U \<and> finite (dom R) \<and>
      (\<forall>rid rec. R rid = Some rec \<longrightarrow> (\<exists>hid. rec ''hotel_id'' = Some (JStr hid) \<and> hid \<in> U)) \<and>
      (\<forall>hid h r. H hid = Some h \<and> h ''rooms'' = Some (JInt r) \<longrightarrow>
         (\<exists>a. h ''available_rooms'' = Some (JInt a) \<and>
              a + int (card (refs R hid)) = r \<and> (0 \<le> r \<longrightarrow> 0 \<le> a))))"

definition accounted :: "string set \<Rightarrow> world \<Rightarrow> bool" where
  "accounted U w =
     (readable (files w HOTELS_FILE) \<and> readable (files w RESERVATIONS_FILE) \<and>
      accounted_stores U (hotels_of w) (reservations_of w))"

subsection \<open>Sample worlds\<close>

text \<open>
  The worlds of the scenarios: one hotel of two rooms; one hotel without rooms; a hotel
  created with a negative number of rooms; a reservation whose hotel was deleted; a hotels
  file whose bytes are not UTF-8.
\<close>

definition miami_world :: world where
  "miami_world = run [CreateHotel ''h1'' (JStr ''Cancel Hotel'') (JStr ''Miami'') (JInt 2)] world0"

definition full_world :: world where
  "full_world = run [CreateHotel ''h0'' (JStr ''Full Hotel'') (JStr ''LA'') (JInt 0)] world0"

definition negative_world :: world where
  "negative_world = run [CreateHotel ''h2'' (JStr ''Odd Hotel'') (JStr ''NYC'') (JInt (- 1))] world0"

definition orphan_world :: world where
  "orphan_world =
     run [CreateHotel ''h1'' (JStr ''Cancel Hotel'') (JStr ''Miami'') (JInt 2),
          CreateReservation ''r1'' (JStr ''c1'') ''h1'',
          DeleteHotel ''h1''] world0"

definition undecodable_world :: world where
  "undecodable_world = world0\<lparr>files := (files world0)(HOTELS_FILE := Undecodable)\<rparr>"

section \<open>Properties of the persistence layer\<close>

lemma files_distinct [simp]:
  "HOTELS_FILE \<noteq> CUSTOMERS_FILE" "HOTELS_FILE \<noteq> RESERVATIONS_FILE"
  "CUSTOMERS_FILE \<noteq> RESERVATIONS_FILE" "CUSTOMERS_FILE \<noteq> HOTELS_FILE"
  "RESERVATIONS_FILE \<noteq> HOTELS_FILE" "RESERVATIONS_FILE \<noteq> CUSTOMERS_FILE"
  by (simp_all add: HOTELS_FILE_def CUSTOMERS_FILE_def RESERVATIONS_FILE_def)

lemma load_data_files: "files (snd (load_data p w)) = files w"
  by (cases "files w p") (simp_all add: load_data_def path_exists_def print_line_def)

lemma load_data_saves: "saves (snd (load_data p w)) = saves w"
  by (cases "files w p") (simp_all add: load_data_def path_exists_def print_line_def)

lemma load_data_Inr:
  "load_data p w = (Inr d, w1) \<Longrightarrow>
     d = collection (files w p) \<and> files w1 = files w \<and> saves w1 = saves w \<and>
     readable (files w p)"
  by (cases "files w p") (auto simp: load_data_def path_exists_def print_line_def readable_def)

lemma load_data_Inl: "load_data p w = (Inl e, w1) \<Longrightarrow> w1 = w \<and> files w p = Undecodable"
  by (cases "files w p") (auto simp: load_data_def path_exists_def print_line_def)

lemma load_data_ex:
  "readable (files w p) \<Longrightarrow>
     \<exists>w1. load_data p w = (Inr (collection (files w p)), w1) \<and>
          files w1 = files w \<and> saves w1 = saves w"
  by (cases "files w p") (auto simp: load_data_def path_exists_def print_line_def readable_def)

text \<open>
  C6. Saving a collection to a store and then loading that store returns the collection
  that was saved, whatever the store held before, and changes nothing more.
\<close>

theorem save_then_load: "load_data p (save_data p d w) = (Inr d, save_data p d w)"
  by (simp add: load_data_def save_data_def path_exists_def)

section \<open>What the reservation operations compute\<close>

lemma save_data_files [simp]: "files (save_data p d w) = (files w)(p := Json d)"
  by (simp add: save_data_def)

lemma save_data_saves [simp]: "saves (save_data p d w) = saves w @ [(p, d)]"
  by (simp add: save_data_def)

lemma print_line_files [simp]: "files (print_line s w) = files w"
  by (simp add: print_line_def)

lemma print_line_saves [simp]: "saves (print_line s w) = saves w"
  by (simp add: print_line_def)

lemma after_loads_files [simp]: "files (after_loads w) = files w"
  by (simp add: after_loads_def load_data_files)

lemma after_loads_saves [simp]: "saves (after_loads w) = saves w"
  by (simp add: after_loads_def load_data_saves)

lemma two_loads:
  assumes "readable (files w RESERVATIONS_FILE)" and "readable (files w HOTELS_FILE)"
  shows "\<exists>w1. load_data RESERVATIONS_FILE w = (Inr (reservations_of w), w1) \<and>
              load_data HOTELS_FILE w1 = (Inr (hotels_of w), after_loads w)"
proof -
  from load_data_ex [OF assms(1)] obtain w1 where
    l1: "load_data RESERVATIONS_FILE w = (Inr (reservations_of w), w1)"
    and f1: "files w1 = files w"
    by (auto simp: reservations_of_def)
  from assms(2) f1 have "readable (files w1 HOTELS_FILE)" by simp
  from load_data_ex [OF this] f1 obtain w2 where
    l2: "load_data HOTELS_FILE w1 = (Inr (hotels_of w), w2)"
    by (auto simp: hotels_of_def)
  from l1 l2 have "after_loads w = w2" by (simp add: after_loads_def)
  with l1 l2 show ?thesis by simp
qed

lemma two_loads_fail:
  assumes "\<not> (readable (files w RESERVATIONS_FILE) \<and> readable (files w HOTELS_FILE))"
  shows "(\<exists>e. load_data RESERVATIONS_FILE w = (Inl e, w)) \<or>
         (\<exists>d w1 e. load_data RESERVATIONS_FILE w = (Inr d, w1) \<and> files w1 = files w \<and>
                    saves w1 = saves w \<and> load_data HOTELS_FILE w1 = (Inl e, w1))"
proof (cases "load_data RESERVATIONS_FILE w")
  case (Pair x w1)
  show ?thesis
  proof (cases x)
    case (Inl e)
    with Pair load_data_Inl [of RESERVATIONS_FILE w e w1] show ?thesis by simp
  next
    case (Inr d)
    with Pair load_data_Inr [of RESERVATIONS_FILE w d w1]
    have f1: "files w1 = files w" "saves w1 = saves w" "readable (files w RESERVATIONS_FILE)"
      by simp_all
    with assms have nr: "\<not> readable (files w1 HOTELS_FILE)" by simp
    obtain y w2 where l2: "load_data HOTELS_FILE w1 = (y, w2)" by (cases "load_data HOTELS_FILE w1")
    show ?thesis
    proof (cases y)
      case (Inl e)
      with l2 load_data_Inl [of HOTELS_FILE w1 e w2] Pair Inr f1 show ?thesis by auto
    next
      case (Inr d2)
      with l2 load_data_Inr [of HOTELS_FILE w1 d2 w2] nr show ?thesis by simp
    qed
  qed
qed

lemma create_reservation_readable:
  assumes "readable (files w RESERVATIONS_FILE)" and "readable (files w HOTELS_FILE)"
  shows "create_reservation uuid4 cid hid w =
       (case hotels_of w hid of
          None \<Rightarrow> (Inr None, print_line ''Error: Hotel not found or no available rooms.'' (after_loads w))
        | Some h \<Rightarrow>
       (case h ''available_rooms'' of
          None \<Rightarrow> (Inl KeyError, after_loads w)
        | Some v \<Rightarrow>
            if py_eq_int v 0
            then (Inr None, print_line ''Error: Hotel not found or no available rooms.'' (after_loads w))
            else
              (case py_sub_int v 1 of
                 Inl e \<Rightarrow> (Inl e, after_loads w)
               | Inr v' \<Rightarrow>
                   (Inr (Some (Reservation_init uuid4 cid hid)),
                    save_data RESERVATIONS_FILE
                      ((reservations_of w)(uuid4 \<mapsto> reservation_to_dict (Reservation_init uuid4 cid hid)))
                      (save_data HOTELS_FILE
                         ((hotels_of w)(hid \<mapsto> h(''available_rooms'' \<mapsto> v'))) (after_loads w))))))"
proof -
  from two_loads [OF assms] obtain w1 where
    "load_data RESERVATIONS_FILE w = (Inr (reservations_of w), w1)"
    "load_data HOTELS_FILE w1 = (Inr (hotels_of w), after_loads w)" by blast
  then show ?thesis
    by (simp add: create_reservation_def Let_def Reservation_init_def
             split: option.splits sum.splits)
qed

lemma create_reservation_unreadable:
  assumes "\<not> (readable (files w RESERVATIONS_FILE) \<and> readable (files w HOTELS_FILE))"
  shows "\<exists>e w'. create_reservation uuid4 cid hid w = (Inl e, w') \<and> files w' = files w \<and> saves w' = saves w"
  using two_loads_fail [OF assms] by (auto simp: create_reservation_def)

lemma cancel_reservation_readable:
  assumes "readable (files w RESERVATIONS_FILE)" and "readable (files w HOTELS_FILE)"
  shows "cancel_reservation rid w =
       (case reservations_of w rid of
          None \<Rightarrow> (Inr False, after_loads w)
        | Some r \<Rightarrow>
       (case r ''hotel_id'' of
          None \<Rightarrow> (Inl KeyError, after_loads w)
        | Some hotel_id_value \<Rightarrow>
            (case restore_room hotel_id_value (hotels_of w) (after_loads w) of
               (Inl e, w3) \<Rightarrow> (Inl e, w3)
             | (Inr u, w3) \<Rightarrow>
                 (Inr True, save_data RESERVATIONS_FILE ((reservations_of w)(rid := None)) w3))))"
proof -
  from two_loads [OF assms] obtain w1 where
    "load_data RESERVATIONS_FILE w = (Inr (reservations_of w), w1)"
    "load_data HOTELS_FILE w1 = (Inr (hotels_of w), after_loads w)" by blast
  then show ?thesis by (simp add: cancel_reservation_def)
qed

lemma cancel_reservation_unreadable:
  assumes "\<not> (readable (files w RESERVATIONS_FILE) \<and> readable (files w HOTELS_FILE))"
  shows "\<exists>e w'. cancel_reservation rid w = (Inl e, w') \<and> files w' = files w \<and> saves w' = saves w"
  using two_loads_fail [OF assms] by (auto simp: cancel_reservation_def)

lemma restore_room_absent:
  "key_in v hotels = None \<Longrightarrow> restore_room v hotels w = (Inr (), w)"
  by (simp add: restore_room_def)

lemma restore_room_present:
  "hotels hid = Some h \<Longrightarrow>
   restore_room (JStr hid) hotels w =
     (case h ''available_rooms'' of
        None \<Rightarrow> (Inl KeyError, w)
      | Some v \<Rightarrow>
          (case py_add_int v 1 of
             Inl e \<Rightarrow> (Inl e, w)
           | Inr v' \<Rightarrow>
               (Inr (), save_data HOTELS_FILE (hotels(hid \<mapsto> h(''available_rooms'' \<mapsto> v'))) w)))"
  by (simp add: restore_room_def)

lemma restore_room_Inl: "restore_room v hotels w = (Inl e, w') \<Longrightarrow> w' = w"
  by (auto simp: restore_room_def split: option.splits sum.splits)

lemma hotels_of_save_hotels [simp]: "hotels_of (save_data HOTELS_FILE d w) = d"
  by (simp add: hotels_of_def)

lemma hotels_of_save_reservations [simp]:
  "hotels_of (save_data RESERVATIONS_FILE d w) = hotels_of w"
  by (simp add: hotels_of_def)

lemma reservations_of_save_reservations [simp]:
  "reservations_of (save_data RESERVATIONS_FILE d w) = d"
  by (simp add: reservations_of_def)

lemma reservations_of_save_hotels [simp]:
  "reservations_of (save_data HOTELS_FILE d w) = reservations_of w"
  by (simp add: reservations_of_def)

lemma hotels_of_after_loads [simp]: "hotels_of (after_loads w) = hotels_of w"
  by (simp add: hotels_of_def)

lemma reservations_of_after_loads [simp]: "reservations_of (after_loads w) = reservations_of w"
  by (simp add: reservations_of_def)

lemma readable_Json [simp]: "readable (Json d)"
  by (simp add: readable_def)

section \<open>The sample worlds, evaluated\<close>

lemmas eval_defs =
  create_hotel_def delete_hotel_def create_customer_def delete_customer_def
  create_reservation_def cancel_reservation_def restore_room_def load_data_def save_data_def
  path_exists_def print_line_def world0_def Hotel_init_def hotel_to_dict_def
  Customer_init_def customer_to_dict_def Reservation_init_def reservation_to_dict_def
  py_eq_int_def py_sub_int_def py_add_int_def Let_def
  HOTELS_FILE_def CUSTOMERS_FILE_def RESERVATIONS_FILE_def

lemma miami_files:
  "files miami_world =
     (\<lambda>p. Missing)(HOTELS_FILE := Json [''h1'' \<mapsto>
        hotel_to_dict (Hotel_init ''h1'' (JStr ''Cancel Hotel'') (JStr ''Miami'') (JInt 2))])"
  by (simp add: miami_world_def create_hotel_def load_data_def path_exists_def world0_def Hotel_init_def Let_def)

lemma full_files:
  "files full_world =
     (\<lambda>p. Missing)(HOTELS_FILE := Json [''h0'' \<mapsto>
        hotel_to_dict (Hotel_init ''h0'' (JStr ''Full Hotel'') (JStr ''LA'') (JInt 0))])"
  by (simp add: full_world_def create_hotel_def load_data_def path_exists_def world0_def Hotel_init_def Let_def)

lemma negative_files:
  "files negative_world =
     (\<lambda>p. Missing)(HOTELS_FILE := Json [''h2'' \<mapsto>
        hotel_to_dict (Hotel_init ''h2'' (JStr ''Odd Hotel'') (JStr ''NYC'') (JInt (- 1)))])"
  by (simp add: negative_world_def create_hotel_def load_data_def path_exists_def world0_def Hotel_init_def Let_def)

lemma orphan_files:
  "files orphan_world =
     (\<lambda>p. Missing)(HOTELS_FILE := Json Map.empty,
        RESERVATIONS_FILE := Json [''r1'' \<mapsto>
          reservation_to_dict (Reservation_init ''r1'' (JStr ''c1'') ''h1'')])"
  by (simp add: orphan_world_def eval_defs fun_upd_twist)

lemma readable_Missing [simp]: "readable Missing"
  by (simp add: readable_def)

section \<open>Rejected reservations\<close>

text \<open>
  C2. From every world whose reservations and hotels files can be read, whatever the
  customer id: \<open>create_reservation\<close> for a hotel id that is not in the hotels store, or
  whose record has \<open>available_rooms\<close> equal to 0, returns \<open>None\<close>, leaves every file as
  it was and saves nothing.
\<close>

theorem create_reservation_rejected:
  assumes "readable (files w RESERVATIONS_FILE)" and "readable (files w HOTELS_FILE)"
    and "hotels_of w hid = None \<or>
         (\<exists>h v. hotels_of w hid = Some h \<and> h ''available_rooms'' = Some v \<and> py_eq_int v 0)"
  shows "fst (create_reservation uuid4 cid hid w) = Inr None \<and>
         files (snd (create_reservation uuid4 cid hid w)) = files w \<and>
         saves (snd (create_reservation uuid4 cid hid w)) = saves w"
  using assms(3) by (auto simp: create_reservation_readable [OF assms(1,2)])

theorem create_reservation_rejected_witness:
  "hotels_of world0 ''h1'' = None \<and>
   fst (create_reservation ''r1'' (JStr ''c1'') ''h1'' world0) = Inr None \<and>
   files (snd (create_reservation ''r1'' (JStr ''c1'') ''h1'' world0)) = files world0 \<and>
   field (hotels_of full_world) ''h0'' ''available_rooms'' = Some (JInt 0) \<and>
   fst (create_reservation ''r1'' (JStr ''c1'') ''h0'' full_world) = Inr None \<and>
   files (snd (create_reservation ''r1'' (JStr ''c1'') ''h0'' full_world)) = files full_world \<and>
   saves (snd (create_reservation ''r1'' (JStr ''c1'') ''h0'' full_world)) = saves full_world"
proof -
  have a: "hotels_of world0 ''h1'' = None"
    by (simp add: hotels_of_def world0_def)
  have r0: "readable (files world0 RESERVATIONS_FILE)" "readable (files world0 HOTELS_FILE)"
    by (simp_all add: world0_def)
  have b: "hotels_of full_world ''h0'' =
      Some (hotel_to_dict (Hotel_init ''h0'' (JStr ''Full Hotel'') (JStr ''LA'') (JInt 0)))"
    by (simp add: hotels_of_def full_files)
  have c: "hotel_to_dict (Hotel_init ''h0'' (JStr ''Full Hotel'') (JStr ''LA'') (JInt 0))
      ''available_rooms'' = Some (JInt 0)"
    by (simp add: hotel_to_dict_def Hotel_init_def)
  have r1: "readable (files full_world RESERVATIONS_FILE)" "readable (files full_world HOTELS_FILE)"
    by (simp_all add: full_files)
  from a b c
    create_reservation_rejected [OF r0, of "''h1''" "''r1''" "JStr ''c1''"]
    create_reservation_rejected [OF r1, of "''h0''" "''r1''" "JStr ''c1''"]
  show ?thesis by (simp add: field_def py_eq_int_def)
qed

section \<open>Reserving and cancelling\<close>

text \<open>
  C3. For a hotel of the store with \<open>available_rooms = N\<close>, \<open>N > 0\<close>: \<open>create_reservation\<close>
  succeeds and leaves \<open>available_rooms = N - 1\<close>; cancelling the reservation it returned
  then succeeds and puts \<open>available_rooms\<close> back to \<open>N\<close>.
\<close>

theorem reserve_then_cancel:
  assumes "readable (files w RESERVATIONS_FILE)" and "readable (files w HOTELS_FILE)"
    and "hotels_of w hid = Some h" and "h ''available_rooms'' = Some (JInt N)" and "0 < N"
  shows "\<exists>r w1 w2.
           create_reservation uuid4 cid hid w = (Inr (Some r), w1) \<and>
           available w1 hid = Some (JInt (N - 1)) \<and>
           cancel_reservation (reservation_id r) w1 = (Inr True, w2) \<and>
           available w2 hid = Some (JInt N)"
proof -
  define r where "r = Reservation_init uuid4 cid hid"
  define H1 where "H1 = (hotels_of w)(hid \<mapsto> h(''available_rooms'' \<mapsto> JInt (N - 1)))"
  define R1 where "R1 = (reservations_of w)(uuid4 \<mapsto> reservation_to_dict r)"
  define w1 where "w1 = save_data RESERVATIONS_FILE R1 (save_data HOTELS_FILE H1 (after_loads w))"
  have c: "create_reservation uuid4 cid hid w = (Inr (Some r), w1)"
    using assms(3-5)
    by (simp add: create_reservation_readable [OF assms(1,2)] py_eq_int_def py_sub_int_def
          r_def H1_def R1_def w1_def)
  have rd: "readable (files w1 RESERVATIONS_FILE)" "readable (files w1 HOTELS_FILE)"
    by (simp_all add: w1_def)
  have h1: "hotels_of w1 = H1" and r1: "reservations_of w1 = R1"
    by (simp_all add: w1_def)
  have a1: "available w1 hid = Some (JInt (N - 1))"
    by (simp add: available_def field_def h1 H1_def)
  define H2 where "H2 = H1(hid \<mapsto> (h(''available_rooms'' \<mapsto> JInt (N - 1)))(''available_rooms'' \<mapsto> JInt N))"
  define w2 where "w2 = save_data RESERVATIONS_FILE (R1(uuid4 := None)) (save_data HOTELS_FILE H2 (after_loads w1))"
  have "H1 hid = Some (h(''available_rooms'' \<mapsto> JInt (N - 1)))"
    by (simp add: H1_def)
  from restore_room_present [of H1 hid "h(''available_rooms'' \<mapsto> JInt (N - 1))" "after_loads w1", OF this]
  have rr: "restore_room (JStr hid) H1 (after_loads w1) = (Inr (), save_data HOTELS_FILE H2 (after_loads w1))"
    by (simp add: H2_def py_add_int_def)
  have "R1 (reservation_id r) = Some (reservation_to_dict r)"
    by (simp add: R1_def r_def Reservation_init_def)
  moreover have "reservation_to_dict r ''hotel_id'' = Some (JStr hid)"
    by (simp add: reservation_to_dict_def r_def Reservation_init_def)
  moreover have "reservation_id r = uuid4"
    by (simp add: r_def Reservation_init_def)
  ultimately have k: "cancel_reservation (reservation_id r) w1 = (Inr True, w2)"
    by (simp add: cancel_reservation_readable [OF rd] h1 r1 rr w2_def)
  have a2: "available w2 hid = Some (JInt N)"
    by (simp add: available_def field_def w2_def H2_def)
  from c a1 k a2 show ?thesis by blast
qed

theorem reserve_then_cancel_witness:
  "available miami_world ''h1'' = Some (JInt 2) \<and>
   (\<exists>r w1 w2.
      create_reservation ''r1'' (JStr ''c1'') ''h1'' miami_world = (Inr (Some r), w1) \<and>
      available w1 ''h1'' = Some (JInt 1) \<and>
      cancel_reservation (reservation_id r) w1 = (Inr True, w2) \<and>
      available w2 ''h1'' = Some (JInt 2))"
proof -
  have b: "hotels_of miami_world ''h1'' =
      Some (hotel_to_dict (Hotel_init ''h1'' (JStr ''Cancel Hotel'') (JStr ''Miami'') (JInt 2)))"
    by (simp add: hotels_of_def miami_files)
  have c: "hotel_to_dict (Hotel_init ''h1'' (JStr ''Cancel Hotel'') (JStr ''Miami'') (JInt 2))
      ''available_rooms'' = Some (JInt 2)"
    by (simp add: hotel_to_dict_def Hotel_init_def)
  have r1: "readable (files miami_world RESERVATIONS_FILE)" "readable (files miami_world HOTELS_FILE)"
    by (simp_all add: miami_files)
  from b c reserve_then_cancel [OF r1 b c, of "''r1''" "JStr ''c1''"]
  show ?thesis by (simp add: available_def field_def)
qed

text \<open>
  C4. Cancelling a reservation of the store whose \<open>hotel_id\<close> is not in the hotels store
  returns \<open>True\<close>, removes the reservation, leaves the hotels file as it was, and
  performs one save only, of the reservations.
\<close>

theorem cancel_orphan:
  assumes "readable (files w RESERVATIONS_FILE)" and "readable (files w HOTELS_FILE)"
    and "reservations_of w rid = Some r" and "r ''hotel_id'' = Some (JStr hid)"
    and "hotels_of w hid = None"
  shows "fst (cancel_reservation rid w) = Inr True \<and>
         reservations_of (snd (cancel_reservation rid w)) = (reservations_of w)(rid := None) \<and>
         files (snd (cancel_reservation rid w)) HOTELS_FILE = files w HOTELS_FILE \<and>
         saves (snd (cancel_reservation rid w)) =
           saves w @ [(RESERVATIONS_FILE, (reservations_of w)(rid := None))]"
  using assms(3-5)
  by (simp add: cancel_reservation_readable [OF assms(1,2)] restore_room_absent)

theorem cancel_orphan_witness:
  "hotels_of orphan_world ''h1'' = None \<and>
   field (reservations_of orphan_world) ''r1'' ''hotel_id'' = Some (JStr ''h1'') \<and>
   fst (cancel_reservation ''r1'' orphan_world) = Inr True \<and>
   reservations_of (snd (cancel_reservation ''r1'' orphan_world)) ''r1'' = None \<and>
   files (snd (cancel_reservation ''r1'' orphan_world)) HOTELS_FILE = Json Map.empty"
proof -
  have a: "hotels_of orphan_world ''h1'' = None"
    by (simp add: hotels_of_def orphan_files)
  have b: "reservations_of orphan_world ''r1'' =
      Some (reservation_to_dict (Reservation_init ''r1'' (JStr ''c1'') ''h1''))"
    by (simp add: reservations_of_def orphan_files)
  have c: "reservation_to_dict (Reservation_init ''r1'' (JStr ''c1'') ''h1'') ''hotel_id'' =
      Some (JStr ''h1'')"
    by (simp add: reservation_to_dict_def Reservation_init_def)
  have r1: "readable (files orphan_world RESERVATIONS_FILE)" "readable (files orphan_world HOTELS_FILE)"
    by (simp_all add: orphan_files)
  from a b c cancel_orphan [OF r1 b c a]
  show ?thesis by (simp add: field_def orphan_files)
qed

section \<open>Ids that are not in the store\<close>

lemma delete_hotel_absent:
  assumes "readable (files w HOTELS_FILE)" and "hotels_of w hid = None"
  shows "fst (delete_hotel hid w) = Inr False \<and>
         files (snd (delete_hotel hid w)) = files w \<and>
         saves (snd (delete_hotel hid w)) = saves w"
proof -
  from load_data_ex [OF assms(1)] obtain w1 where
    "load_data HOTELS_FILE w = (Inr (hotels_of w), w1)" "files w1 = files w" "saves w1 = saves w"
    by (auto simp: hotels_of_def)
  with assms(2) show ?thesis by (simp add: delete_hotel_def)
qed

lemma delete_customer_absent:
  assumes "readable (files w CUSTOMERS_FILE)" and "customers_of w cid = None"
  shows "fst (delete_customer cid w) = Inr False \<and>
         files (snd (delete_customer cid w)) = files w \<and>
         saves (snd (delete_customer cid w)) = saves w"
proof -
  from load_data_ex [OF assms(1)] obtain w1 where
    "load_data CUSTOMERS_FILE w = (Inr (customers_of w), w1)" "files w1 = files w" "saves w1 = saves w"
    by (auto simp: customers_of_def)
  with assms(2) show ?thesis by (simp add: delete_customer_def)
qed

lemma cancel_reservation_absent:
  assumes "readable (files w RESERVATIONS_FILE)" and "readable (files w HOTELS_FILE)"
    and "reservations_of w rid = None"
  shows "fst (cancel_reservation rid w) = Inr False \<and>
         files (snd (cancel_reservation rid w)) = files w \<and>
         saves (snd (cancel_reservation rid w)) = saves w"
  using assms(3) by (simp add: cancel_reservation_readable [OF assms(1,2)])

text \<open>
  C5. For an id that is not in the store concerned, \<open>delete_hotel\<close>, \<open>delete_customer\<close>
  and \<open>cancel_reservation\<close> return \<open>False\<close>, leave every file as it was and save
  nothing; the same call made again returns \<open>False\<close> again.
\<close>

theorem absent_id_is_no_op:
  "(readable (files w HOTELS_FILE) \<and> hotels_of w hid = None \<longrightarrow>
      fst (delete_hotel hid w) = Inr False \<and>
      files (snd (delete_hotel hid w)) = files w \<and>
      saves (snd (delete_hotel hid w)) = saves w \<and>
      fst (delete_hotel hid (snd (delete_hotel hid w))) = Inr False) \<and>
   (readable (files w CUSTOMERS_FILE) \<and> customers_of w cid = None \<longrightarrow>
      fst (delete_customer cid w) = Inr False \<and>
      files (snd (delete_customer cid w)) = files w \<and>
      saves (snd (delete_customer cid w)) = saves w \<and>
      fst (delete_customer cid (snd (delete_customer cid w))) = Inr False) \<and>
   (readable (files w RESERVATIONS_FILE) \<and> readable (files w HOTELS_FILE) \<and>
    reservations_of w rid = None \<longrightarrow>
      fst (cancel_reservation rid w) = Inr False \<and>
      files (snd (cancel_reservation rid w)) = files w \<and>
      saves (snd (cancel_reservation rid w)) = saves w \<and>
      fst (cancel_reservation rid (snd (cancel_reservation rid w))) = Inr False)"
proof (intro conjI impI)
  assume a: "readable (files w HOTELS_FILE) \<and> hotels_of w hid = None"
  then have 1: "fst (delete_hotel hid w) = Inr False \<and>
      files (snd (delete_hotel hid w)) = files w \<and> saves (snd (delete_hotel hid w)) = saves w"
    by (simp add: delete_hotel_absent)
  then show "fst (delete_hotel hid w) = Inr False"
    "files (snd (delete_hotel hid w)) = files w" "saves (snd (delete_hotel hid w)) = saves w"
    by simp_all
  from a 1 show "fst (delete_hotel hid (snd (delete_hotel hid w))) = Inr False"
    by (simp add: delete_hotel_absent hotels_of_def)
next
  assume a: "readable (files w CUSTOMERS_FILE) \<and> customers_of w cid = None"
  then have 1: "fst (delete_customer cid w) = Inr False \<and>
      files (snd (delete_customer cid w)) = files w \<and> saves (snd (delete_customer cid w)) = saves w"
    by (simp add: delete_customer_absent)
  then show "fst (delete_customer cid w) = Inr False"
    "files (snd (delete_customer cid w)) = files w" "saves (snd (delete_customer cid w)) = saves w"
    by simp_all
  from a 1 show "fst (delete_customer cid (snd (delete_customer cid w))) = Inr False"
    by (simp add: delete_customer_absent customers_of_def)
next
  assume a: "readable (files w RESERVATIONS_FILE) \<and> readable (files w HOTELS_FILE) \<and>
    reservations_of w rid = None"
  then have 1: "fst (cancel_reservation rid w) = Inr False \<and>
      files (snd (cancel_reservation rid w)) = files w \<and>
      saves (snd (cancel_reservation rid w)) = saves w"
    by (simp add: cancel_reservation_absent)
  then show "fst (cancel_reservation rid w) = Inr False"
    "files (snd (cancel_reservation rid w)) = files w"
    "saves (snd (cancel_reservation rid w)) = saves w"
    by simp_all
  from a 1 show "fst (cancel_reservation rid (snd (cancel_reservation rid w))) = Inr False"
    by (simp add: cancel_reservation_absent reservations_of_def)
qed

theorem absent_id_is_no_op_witness:
  "hotels_of miami_world ''h9'' = None \<and>
   fst (delete_hotel ''h9'' miami_world) = Inr False \<and>
   files (snd (delete_hotel ''h9'' miami_world)) = files miami_world \<and>
   saves (snd (delete_hotel ''h9'' miami_world)) = saves miami_world \<and>
   fst (delete_hotel ''h9'' (snd (delete_hotel ''h9'' miami_world))) = Inr False \<and>
   customers_of miami_world ''c9'' = None \<and>
   fst (delete_customer ''c9'' miami_world) = Inr False \<and>
   files (snd (delete_customer ''c9'' miami_world)) = files miami_world \<and>
   reservations_of miami_world ''r9'' = None \<and>
   fst (cancel_reservation ''r9'' miami_world) = Inr False \<and>
   files (snd (cancel_reservation ''r9'' miami_world)) = files miami_world"
proof -
  have a: "hotels_of miami_world ''h9'' = None" "customers_of miami_world ''c9'' = None"
    "reservations_of miami_world ''r9'' = None"
    by (simp_all add: hotels_of_def customers_of_def reservations_of_def miami_files)
  have r: "readable (files miami_world RESERVATIONS_FILE)" "readable (files miami_world HOTELS_FILE)"
    "readable (files miami_world CUSTOMERS_FILE)"
    by (simp_all add: miami_files)
  from a r absent_id_is_no_op [of miami_world "''h9''" "''c9''" "''r9''"]
  show ?thesis by simp
qed

section \<open>The guard rejects the value 0 only\<close>

text \<open>
  C9. For a hotel of the store with \<open>available_rooms = N\<close>, \<open>N < 0\<close>: \<open>create_reservation\<close>
  succeeds and leaves \<open>available_rooms = N - 1\<close>, further below zero.
\<close>

theorem negative_availability_is_reserved:
  assumes "readable (files w RESERVATIONS_FILE)" and "readable (files w HOTELS_FILE)"
    and "hotels_of w hid = Some h" and "h ''available_rooms'' = Some (JInt N)" and "N < 0"
  shows "\<exists>r. fst (create_reservation uuid4 cid hid w) = Inr (Some r) \<and>
             available (snd (create_reservation uuid4 cid hid w)) hid = Some (JInt (N - 1)) \<and>
             N - 1 < 0"
  using assms(3-5)
  by (simp add: create_reservation_readable [OF assms(1,2)] py_eq_int_def py_sub_int_def
        available_def field_def)

theorem negative_availability_is_reserved_witness:
  "available negative_world ''h2'' = Some (JInt (- 1)) \<and>
   (\<exists>r. fst (create_reservation ''r1'' (JStr ''c1'') ''h2'' negative_world) = Inr (Some r)) \<and>
   available (snd (create_reservation ''r1'' (JStr ''c1'') ''h2'' negative_world)) ''h2'' =
     Some (JInt (- 2))"
proof -
  have b: "hotels_of negative_world ''h2'' =
      Some (hotel_to_dict (Hotel_init ''h2'' (JStr ''Odd Hotel'') (JStr ''NYC'') (JInt (- 1))))"
    by (simp add: hotels_of_def negative_files)
  have c: "hotel_to_dict (Hotel_init ''h2'' (JStr ''Odd Hotel'') (JStr ''NYC'') (JInt (- 1)))
      ''available_rooms'' = Some (JInt (- 1))"
    by (simp add: hotel_to_dict_def Hotel_init_def)
  have r1: "readable (files negative_world RESERVATIONS_FILE)"
    "readable (files negative_world HOTELS_FILE)"
    by (simp_all add: negative_files)
  from b c negative_availability_is_reserved [OF r1 b c, of "''r1''" "JStr ''c1''"]
  show ?thesis by (auto simp: available_def field_def)
qed

section \<open>The order of the two saves\<close>

lemma create_reservation_Inr_readable:
  assumes "create_reservation uuid4 cid hid w = (Inr x, w')"
  shows "readable (files w RESERVATIONS_FILE) \<and> readable (files w HOTELS_FILE)"
proof (rule ccontr)
  assume "\<not> ?thesis"
  from create_reservation_unreadable [OF this, of uuid4 cid hid] assms show False by auto
qed

text \<open>
  C8. In every successful \<open>create_reservation\<close> the call saves twice: first the hotels,
  with the availability of the hotel decremented, then the reservations, with the new
  record. The file system between the two saves (the journal replayed up to the first)
  holds the decremented hotel and the reservations file as it was before the call: a room
  is taken and no reservation accounts for it.
\<close>

theorem hotels_saved_before_reservations:
  assumes "create_reservation uuid4 cid hid w = (Inr (Some r), w')"
  shows "\<exists>h v v' H' R'.
           hotels_of w hid = Some h \<and> h ''available_rooms'' = Some v \<and>
           py_sub_int v 1 = Inr v' \<and>
           H' = (hotels_of w)(hid \<mapsto> h(''available_rooms'' \<mapsto> v')) \<and>
           R' = (reservations_of w)(uuid4 \<mapsto> reservation_to_dict r) \<and>
           saves w' = saves w @ [(HOTELS_FILE, H'), (RESERVATIONS_FILE, R')] \<and>
           files w' = replay [(HOTELS_FILE, H'), (RESERVATIONS_FILE, R')] (files w) \<and>
           replay [(HOTELS_FILE, H')] (files w) HOTELS_FILE = Json H' \<and>
           replay [(HOTELS_FILE, H')] (files w) RESERVATIONS_FILE = files w RESERVATIONS_FILE"
proof -
  from create_reservation_Inr_readable [OF assms]
  have rd: "readable (files w RESERVATIONS_FILE)" "readable (files w HOTELS_FILE)" by simp_all
  from assms show ?thesis
    unfolding create_reservation_readable [OF rd]
    by (auto split: option.splits if_splits sum.splits)
qed

theorem hotels_saved_before_reservations_witness:
  "\<exists>r w'. create_reservation ''r1'' (JStr ''c1'') ''h1'' miami_world = (Inr (Some r), w') \<and>
      saves w' = saves miami_world @
        [(HOTELS_FILE, [''h1'' \<mapsto> (hotel_to_dict (Hotel_init ''h1'' (JStr ''Cancel Hotel'')
             (JStr ''Miami'') (JInt 2)))(''available_rooms'' \<mapsto> JInt 1)]),
         (RESERVATIONS_FILE, [''r1'' \<mapsto> reservation_to_dict r])]"
proof -
  have b: "hotels_of miami_world =
      [''h1'' \<mapsto> hotel_to_dict (Hotel_init ''h1'' (JStr ''Cancel Hotel'') (JStr ''Miami'') (JInt 2))]"
    by (simp add: hotels_of_def miami_files)
  have c: "hotel_to_dict (Hotel_init ''h1'' (JStr ''Cancel Hotel'') (JStr ''Miami'') (JInt 2))
      ''available_rooms'' = Some (JInt 2)"
    by (simp add: hotel_to_dict_def Hotel_init_def)
  have e: "reservations_of miami_world = Map.empty"
    by (simp add: reservations_of_def miami_files)
  have r1: "readable (files miami_world RESERVATIONS_FILE)" "readable (files miami_world HOTELS_FILE)"
    by (simp_all add: miami_files)
  obtain r w' where cr: "create_reservation ''r1'' (JStr ''c1'') ''h1'' miami_world = (Inr (Some r), w')"
    by (simp add: create_reservation_readable [OF r1] b c py_eq_int_def py_sub_int_def)
  from hotels_saved_before_reservations [OF cr] b c e
  have "saves w' = saves miami_world @
        [(HOTELS_FILE, [''h1'' \<mapsto> (hotel_to_dict (Hotel_init ''h1'' (JStr ''Cancel Hotel'')
             (JStr ''Miami'') (JInt 2)))(''available_rooms'' \<mapsto> JInt 1)]),
         (RESERVATIONS_FILE, [''r1'' \<mapsto> reservation_to_dict r])]"
    by (auto simp: py_sub_int_def)
  with cr show ?thesis by blast
qed

section \<open>Each operation keeps to its own stores\<close>

lemma create_hotel_frame: "p \<noteq> HOTELS_FILE \<Longrightarrow> files (snd (create_hotel uuid4 name location rooms w)) p = files w p"
proof (cases "load_data HOTELS_FILE w")
  case (Pair x w1)
  assume "p \<noteq> HOTELS_FILE"
  with Pair load_data_files [of HOTELS_FILE w] show ?thesis
    by (cases x) (simp_all add: create_hotel_def Let_def)
qed

lemma delete_hotel_frame: "p \<noteq> HOTELS_FILE \<Longrightarrow> files (snd (delete_hotel hid w)) p = files w p"
proof (cases "load_data HOTELS_FILE w")
  case (Pair x w1)
  assume "p \<noteq> HOTELS_FILE"
  with Pair load_data_files [of HOTELS_FILE w] show ?thesis
    by (cases x) (simp_all add: delete_hotel_def)
qed

lemma create_customer_frame: "p \<noteq> CUSTOMERS_FILE \<Longrightarrow> files (snd (create_customer uuid4 name email w)) p = files w p"
proof (cases "load_data CUSTOMERS_FILE w")
  case (Pair x w1)
  assume "p \<noteq> CUSTOMERS_FILE"
  with Pair load_data_files [of CUSTOMERS_FILE w] show ?thesis
    by (cases x) (simp_all add: create_customer_def Let_def)
qed

lemma delete_customer_frame: "p \<noteq> CUSTOMERS_FILE \<Longrightarrow> files (snd (delete_customer cid w)) p = files w p"
proof (cases "load_data CUSTOMERS_FILE w")
  case (Pair x w1)
  assume "p \<noteq> CUSTOMERS_FILE"
  with Pair load_data_files [of CUSTOMERS_FILE w] show ?thesis
    by (cases x) (simp_all add: delete_customer_def)
qed

lemma restore_room_frame:
  "p \<noteq> HOTELS_FILE \<Longrightarrow> files (snd (restore_room v hotels w)) p = files w p"
  by (simp add: restore_room_def split: option.splits sum.splits)

lemma create_reservation_frame:
  assumes "p \<noteq> HOTELS_FILE" and "p \<noteq> RESERVATIONS_FILE"
  shows "files (snd (create_reservation uuid4 cid hid w)) p = files w p"
proof (cases "readable (files w RESERVATIONS_FILE) \<and> readable (files w HOTELS_FILE)")
  case True
  with assms show ?thesis
    by (simp add: create_reservation_readable split: option.splits sum.splits)
next
  case False
  from create_reservation_unreadable [OF this, of uuid4 cid hid] show ?thesis by auto
qed

lemma cancel_reservation_frame:
  assumes "p \<noteq> HOTELS_FILE" and "p \<noteq> RESERVATIONS_FILE"
  shows "files (snd (cancel_reservation rid w)) p = files w p"
proof (cases "readable (files w RESERVATIONS_FILE) \<and> readable (files w HOTELS_FILE)")
  case True
  then have rd: "readable (files w RESERVATIONS_FILE)" "readable (files w HOTELS_FILE)" by simp_all
  show ?thesis
  proof (cases "reservations_of w rid")
    case None
    then show ?thesis by (simp add: cancel_reservation_readable [OF rd])
  next
    case (Some r)
    show ?thesis
    proof (cases "r ''hotel_id''")
      case None
      with Some show ?thesis by (simp add: cancel_reservation_readable [OF rd])
    next
      case (Some v)
      obtain x w3 where rr: "restore_room v (hotels_of w) (after_loads w) = (x, w3)"
        by (cases "restore_room v (hotels_of w) (after_loads w)")
      from restore_room_frame [OF assms(1), of v "hotels_of w" "after_loads w"] rr
      have "files w3 p = files w p" by simp
      with \<open>reservations_of w rid = Some r\<close> Some rr assms(2) show ?thesis
        by (cases x) (simp_all add: cancel_reservation_readable [OF rd])
    qed
  qed
next
  case False
  from cancel_reservation_unreadable [OF this, of rid] show ?thesis by auto
qed

text \<open>
  C10. The customer operations leave the hotels file and the reservations file as they
  were; the hotel operations leave the customers file and the reservations file as they
  were (so deleting a hotel keeps the reservations that refer to it); the reservation
  operations leave the customers file as it was.
\<close>

theorem operations_keep_to_their_stores:
  "files (snd (create_customer uuid4 name email w)) HOTELS_FILE = files w HOTELS_FILE \<and>
   files (snd (create_customer uuid4 name email w)) RESERVATIONS_FILE = files w RESERVATIONS_FILE \<and>
   files (snd (delete_customer cid w)) HOTELS_FILE = files w HOTELS_FILE \<and>
   files (snd (delete_customer cid w)) RESERVATIONS_FILE = files w RESERVATIONS_FILE \<and>
   files (snd (create_hotel uuid4 name location rooms w)) CUSTOMERS_FILE = files w CUSTOMERS_FILE \<and>
   files (snd (create_hotel uuid4 name location rooms w)) RESERVATIONS_FILE = files w RESERVATIONS_FILE \<and>
   files (snd (delete_hotel hid w)) CUSTOMERS_FILE = files w CUSTOMERS_FILE \<and>
   files (snd (delete_hotel hid w)) RESERVATIONS_FILE = files w RESERVATIONS_FILE \<and>
   reservations_of (snd (delete_hotel hid w)) = reservations_of w \<and>
   files (snd (create_reservation uuid4 jcid hid w)) CUSTOMERS_FILE = files w CUSTOMERS_FILE \<and>
   files (snd (cancel_reservation rid w)) CUSTOMERS_FILE = files w CUSTOMERS_FILE"
  by (simp add: create_hotel_frame delete_hotel_frame create_customer_frame delete_customer_frame
        create_reservation_frame cancel_reservation_frame reservations_of_def)

section \<open>Loading a store that is missing or is not JSON\<close>

lemma load_data_missing: "files w p = Missing \<Longrightarrow> load_data p w = (Inr Map.empty, w)"
  by (simp add: load_data_def path_exists_def)

lemma load_data_garbled:
  "files w p = Garbled \<Longrightarrow>
   load_data p w =
     (Inr Map.empty, print_line (''Error reading '' @ p @ ''. Initializing empty data.'') w)"
  by (simp add: load_data_def path_exists_def)

lemma load_data_never_JSONDecodeError: "fst (load_data p w) \<noteq> Inl JSONDecodeError"
  by (cases "files w p") (simp_all add: load_data_def path_exists_def)

section \<open>Loading a store that cannot be decoded\<close>

text \<open>
  C7. \<open>load_data\<close> on a hotels file whose bytes are not UTF-8: the \<open>UnicodeDecodeError\<close>
  of the read is not among the exceptions that \<open>load_data\<close> catches, and it reaches the
  caller; no empty mapping is returned.
\<close>

theorem load_data_undecodable:
  "load_data HOTELS_FILE undecodable_world = (Inl UnicodeDecodeError, undecodable_world)"
  by (simp add: load_data_def undecodable_world_def path_exists_def)

section \<open>The accounting of rooms under sequential access\<close>

subsection \<open>Reservations that refer to a hotel\<close>

lemma refs_subset_dom: "refs R hid \<subseteq> dom R"
  by (auto simp: refs_def)

lemma finite_refs: "finite (dom R) \<Longrightarrow> finite (refs R hid)"
  by (rule finite_subset [OF refs_subset_dom])

lemma refs_insert:
  "R u = None \<Longrightarrow>
   refs (R(u \<mapsto> rec)) hid =
     (if rec ''hotel_id'' = Some (JStr hid) then insert u (refs R hid) else refs R hid)"
  by (auto simp: refs_def)

lemma refs_remove: "refs (R(rid := None)) hid = refs R hid - {rid}"
  by (auto simp: refs_def)

lemma refs_unknown_hotel:
  assumes "\<forall>rid rec. R rid = Some rec \<longrightarrow> (\<exists>hid. rec ''hotel_id'' = Some (JStr hid) \<and> hid \<in> U)"
    and "u \<notin> U"
  shows "refs R u = {}"
proof -
  { fix rid assume "rid \<in> refs R u"
    then obtain rec where "R rid = Some rec" "rec ''hotel_id'' = Some (JStr u)"
      by (auto simp: refs_def)
    with assms(1) have "u \<in> U" by fastforce
    with assms(2) have False by simp }
  then show ?thesis by blast
qed

lemma acc_empty: "accounted_stores {} Map.empty Map.empty"
  by (simp add: accounted_stores_def refs_def)

lemma accounted_storesI:
  assumes "dom H \<subseteq> U" and "dom R \<subseteq> U" and "finite (dom R)"
    and "\<And>rid rec. R rid = Some rec \<Longrightarrow> \<exists>hid. rec ''hotel_id'' = Some (JStr hid) \<and> hid \<in> U"
    and "\<And>hid h r. H hid = Some h \<Longrightarrow> h ''rooms'' = Some (JInt r) \<Longrightarrow>
           \<exists>a. h ''available_rooms'' = Some (JInt a) \<and>
               a + int (card (refs R hid)) = r \<and> (0 \<le> r \<longrightarrow> 0 \<le> a)"
  shows "accounted_stores U H R"
  unfolding accounted_stores_def
proof (intro conjI allI impI)
  show "dom H \<subseteq> U" by fact
  show "dom R \<subseteq> U" by fact
  show "finite (dom R)" by fact
next
  fix rid rec assume "R rid = Some rec"
  then show "\<exists>hid. rec ''hotel_id'' = Some (JStr hid) \<and> hid \<in> U" by (rule assms(4))
next
  fix hid h r assume "H hid = Some h \<and> h ''rooms'' = Some (JInt r)"
  then have "H hid = Some h" "h ''rooms'' = Some (JInt r)" by simp_all
  then show "\<exists>a. h ''available_rooms'' = Some (JInt a) \<and>
               a + int (card (refs R hid)) = r \<and> (0 \<le> r \<longrightarrow> 0 \<le> a)" by (rule assms(5))
qed

lemma acc_domH: "accounted_stores U H R \<Longrightarrow> dom H \<subseteq> U"
  by (simp add: accounted_stores_def)

lemma acc_domR: "accounted_stores U H R \<Longrightarrow> dom R \<subseteq> U"
  by (simp add: accounted_stores_def)

lemma acc_finite: "accounted_stores U H R \<Longrightarrow> finite (dom R)"
  by (simp add: accounted_stores_def)

lemma acc_hotel_id:
  assumes "accounted_stores U H R" and "R rid = Some rec"
  shows "\<exists>hid. rec ''hotel_id'' = Some (JStr hid) \<and> hid \<in> U"
proof -
  from assms(1) have "\<forall>rid rec. R rid = Some rec \<longrightarrow>
      (\<exists>hid. rec ''hotel_id'' = Some (JStr hid) \<and> hid \<in> U)"
    by (simp add: accounted_stores_def)
  then have "R rid = Some rec \<longrightarrow> (\<exists>hid. rec ''hotel_id'' = Some (JStr hid) \<and> hid \<in> U)"
    by (elim allE)
  with assms(2) show ?thesis by simp
qed

lemma acc_rooms:
  assumes "accounted_stores U H R" and "H hid = Some h" and "h ''rooms'' = Some (JInt r)"
  shows "\<exists>a. h ''available_rooms'' = Some (JInt a) \<and>
         a + int (card (refs R hid)) = r \<and> (0 \<le> r \<longrightarrow> 0 \<le> a)"
proof -
  from assms(1) have "\<forall>hid h r. H hid = Some h \<and> h ''rooms'' = Some (JInt r) \<longrightarrow>
         (\<exists>a. h ''available_rooms'' = Some (JInt a) \<and>
              a + int (card (refs R hid)) = r \<and> (0 \<le> r \<longrightarrow> 0 \<le> a))"
    by (simp add: accounted_stores_def)
  then have "H hid = Some h \<and> h ''rooms'' = Some (JInt r) \<longrightarrow>
         (\<exists>a. h ''available_rooms'' = Some (JInt a) \<and>
              a + int (card (refs R hid)) = r \<and> (0 \<le> r \<longrightarrow> 0 \<le> a))"
    by (elim allE)
  with assms(2,3) show ?thesis by simp
qed

subsection \<open>Each change of the stores keeps the accounting\<close>

lemma acc_mono:
  assumes "accounted_stores U H R" and "U \<subseteq> U'"
  shows "accounted_stores U' H R"
proof (rule accounted_storesI)
  from acc_domH [OF assms(1)] assms(2) show "dom H \<subseteq> U'" by blast
  from acc_domR [OF assms(1)] assms(2) show "dom R \<subseteq> U'" by blast
  from acc_finite [OF assms(1)] show "finite (dom R)" .
next
  fix rid rec assume "R rid = Some rec"
  from acc_hotel_id [OF assms(1) this] assms(2)
  show "\<exists>hid. rec ''hotel_id'' = Some (JStr hid) \<and> hid \<in> U'" by blast
next
  fix hid h r assume "H hid = Some h" "h ''rooms'' = Some (JInt r)"
  from acc_rooms [OF assms(1) this]
  show "\<exists>a. h ''available_rooms'' = Some (JInt a) \<and>
           a + int (card (refs R hid)) = r \<and> (0 \<le> r \<longrightarrow> 0 \<le> a)" .
qed

lemma acc_create_hotel:
  assumes "accounted_stores U H R" and "u \<notin> U"
  shows "accounted_stores (insert u U) (H(u \<mapsto> hotel_to_dict (Hotel_init u n l v))) R"
proof (rule accounted_storesI)
  from acc_domH [OF assms(1)] show "dom (H(u \<mapsto> hotel_to_dict (Hotel_init u n l v))) \<subseteq> insert u U"
    by auto
  from acc_domR [OF assms(1)] show "dom R \<subseteq> insert u U" by blast
  from acc_finite [OF assms(1)] show "finite (dom R)" .
next
  fix rid rec assume "R rid = Some rec"
  from acc_hotel_id [OF assms(1) this]
  show "\<exists>hid. rec ''hotel_id'' = Some (JStr hid) \<and> hid \<in> insert u U" by blast
next
  fix hid h r
  assume h: "(H(u \<mapsto> hotel_to_dict (Hotel_init u n l v))) hid = Some h"
    and r: "h ''rooms'' = Some (JInt r)"
  show "\<exists>a. h ''available_rooms'' = Some (JInt a) \<and>
           a + int (card (refs R hid)) = r \<and> (0 \<le> r \<longrightarrow> 0 \<le> a)"
  proof (cases "hid = u")
    case True
    have "\<forall>rid rec. R rid = Some rec \<longrightarrow> (\<exists>hid. rec ''hotel_id'' = Some (JStr hid) \<and> hid \<in> U)"
      using acc_hotel_id [OF assms(1)] by blast
    from refs_unknown_hotel [OF this assms(2)] have r0: "refs R u = {}" .
    from h True have "h = hotel_to_dict (Hotel_init u n l v)" by simp
    with r have "v = JInt r" "h ''available_rooms'' = Some v"
      by (simp_all add: hotel_to_dict_def Hotel_init_def)
    with r0 True show ?thesis by simp
  next
    case False
    with h have "H hid = Some h" by simp
    from acc_rooms [OF assms(1) this r] show ?thesis .
  qed
qed

lemma acc_delete_hotel:
  assumes "accounted_stores U H R"
  shows "accounted_stores U (H(hid0 := None)) R"
proof (rule accounted_storesI)
  from acc_domH [OF assms(1)] show "dom (H(hid0 := None)) \<subseteq> U" by auto
  from acc_domR [OF assms(1)] show "dom R \<subseteq> U" .
  from acc_finite [OF assms(1)] show "finite (dom R)" .
next
  fix rid rec assume "R rid = Some rec"
  from acc_hotel_id [OF assms(1) this]
  show "\<exists>hid. rec ''hotel_id'' = Some (JStr hid) \<and> hid \<in> U" .
next
  fix hid h r
  assume h: "(H(hid0 := None)) hid = Some h" and r: "h ''rooms'' = Some (JInt r)"
  from h have "H hid = Some h" by (simp split: if_splits)
  from acc_rooms [OF assms(1) this r]
  show "\<exists>a. h ''available_rooms'' = Some (JInt a) \<and>
           a + int (card (refs R hid)) = r \<and> (0 \<le> r \<longrightarrow> 0 \<le> a)" .
qed

lemma reservation_to_dict_hotel_id [simp]:
  "reservation_to_dict (Reservation_init u c hid) ''hotel_id'' = Some (JStr hid)"
  by (simp add: reservation_to_dict_def Reservation_init_def)

lemma acc_reserve:
  assumes acc: "accounted_stores U H R" and fresh: "u \<notin> U"
    and h0: "H hid0 = Some h0" and v: "h0 ''available_rooms'' = Some v"
    and nz: "\<not> py_eq_int v 0" and v': "py_sub_int v 1 = Inr v'"
  shows "accounted_stores (insert u U) (H(hid0 \<mapsto> h0(''available_rooms'' \<mapsto> v')))
           (R(u \<mapsto> reservation_to_dict (Reservation_init u c hid0)))"
proof (rule accounted_storesI)
  from h0 acc_domH [OF acc] have in_U: "hid0 \<in> U" by blast
  from acc_domR [OF acc] fresh have Ru: "R u = None" by blast
  from acc_domH [OF acc] in_U
  show "dom (H(hid0 \<mapsto> h0(''available_rooms'' \<mapsto> v'))) \<subseteq> insert u U" by auto
  from acc_domR [OF acc]
  show "dom (R(u \<mapsto> reservation_to_dict (Reservation_init u c hid0))) \<subseteq> insert u U" by auto
  from acc_finite [OF acc]
  show "finite (dom (R(u \<mapsto> reservation_to_dict (Reservation_init u c hid0))))" by simp
  {
    fix rid rec
    assume a: "(R(u \<mapsto> reservation_to_dict (Reservation_init u c hid0))) rid = Some rec"
    show "\<exists>hid. rec ''hotel_id'' = Some (JStr hid) \<and> hid \<in> insert u U"
    proof (cases "rid = u")
      case True
      with a have "rec = reservation_to_dict (Reservation_init u c hid0)" by simp
      with in_U show ?thesis by simp
    next
      case False
      with a have "R rid = Some rec" by simp
      from acc_hotel_id [OF acc this] show ?thesis by blast
    qed
  }
  {
    fix hid h r
    assume h: "(H(hid0 \<mapsto> h0(''available_rooms'' \<mapsto> v'))) hid = Some h"
      and r: "h ''rooms'' = Some (JInt r)"
    show "\<exists>a. h ''available_rooms'' = Some (JInt a) \<and>
           a + int (card (refs (R(u \<mapsto> reservation_to_dict (Reservation_init u c hid0))) hid)) = r \<and>
           (0 \<le> r \<longrightarrow> 0 \<le> a)"
    proof (cases "hid = hid0")
      case True
      with h have heq: "h = h0(''available_rooms'' \<mapsto> v')" by simp
      with r have "h0 ''rooms'' = Some (JInt r)" by simp
      from acc_rooms [OF acc h0 this] v obtain a where
        a: "v = JInt a" "a + int (card (refs R hid0)) = r" "0 \<le> r \<longrightarrow> 0 \<le> a" by auto
      from a(1) nz have anz: "a \<noteq> 0" by (simp add: py_eq_int_def)
      from a(1) v' have v'eq: "v' = JInt (a - 1)" by (simp add: py_sub_int_def)
      have fin: "finite (refs R hid0)" by (rule finite_refs [OF acc_finite [OF acc]])
      from Ru refs_subset_dom [of R hid0] have notin: "u \<notin> refs R hid0" by blast
      have "refs (R(u \<mapsto> reservation_to_dict (Reservation_init u c hid0))) hid0 =
          insert u (refs R hid0)"
        by (simp add: refs_insert [of R u, OF Ru])
      with fin notin have c:
        "int (card (refs (R(u \<mapsto> reservation_to_dict (Reservation_init u c hid0))) hid0)) =
           int (card (refs R hid0)) + 1"
        by simp
      from heq v'eq have 1: "h ''available_rooms'' = Some (JInt (a - 1))" by simp
      from a(2) c have 2:
        "(a - 1) + int (card (refs (R(u \<mapsto> reservation_to_dict (Reservation_init u c hid0))) hid0)) = r"
        by arith
      from a(3) anz have 3: "0 \<le> r \<longrightarrow> 0 \<le> a - 1" by arith
      from 1 2 3 True show ?thesis by blast
    next
      case False
      with h have "H hid = Some h" by simp
      from acc_rooms [OF acc this r] obtain a where
        a: "h ''available_rooms'' = Some (JInt a)" "a + int (card (refs R hid)) = r"
           "0 \<le> r \<longrightarrow> 0 \<le> a" by blast
      from False have "refs (R(u \<mapsto> reservation_to_dict (Reservation_init u c hid0))) hid =
          refs R hid"
        by (simp add: refs_insert [of R u, OF Ru])
      with a show ?thesis by simp
    qed
  }
qed

lemma acc_cancel_absent:
  assumes acc: "accounted_stores U H R" and rec0: "R rid0 = Some rec0"
    and hid0: "rec0 ''hotel_id'' = Some (JStr hid0)" and absent: "H hid0 = None"
  shows "accounted_stores U H (R(rid0 := None))"
proof (rule accounted_storesI)
  from acc_domH [OF acc] show "dom H \<subseteq> U" .
  from acc_domR [OF acc] show "dom (R(rid0 := None)) \<subseteq> U" by auto
  from acc_finite [OF acc] show "finite (dom (R(rid0 := None)))" by simp
  {
    fix rid rec assume "(R(rid0 := None)) rid = Some rec"
    then have "R rid = Some rec" by (simp split: if_splits)
    from acc_hotel_id [OF acc this]
    show "\<exists>hid. rec ''hotel_id'' = Some (JStr hid) \<and> hid \<in> U" .
  }
  {
    fix hid h r
    assume h: "H hid = Some h" and r: "h ''rooms'' = Some (JInt r)"
    from h absent have "hid \<noteq> hid0" by auto
    with rec0 hid0 have "rid0 \<notin> refs R hid" by (auto simp: refs_def)
    then have "refs (R(rid0 := None)) hid = refs R hid" by (simp add: refs_remove)
    with acc_rooms [OF acc h r]
    show "\<exists>a. h ''available_rooms'' = Some (JInt a) \<and>
           a + int (card (refs (R(rid0 := None)) hid)) = r \<and> (0 \<le> r \<longrightarrow> 0 \<le> a)" by simp
  }
qed

lemma acc_cancel_present:
  assumes acc: "accounted_stores U H R" and rec0: "R rid0 = Some rec0"
    and hid0: "rec0 ''hotel_id'' = Some (JStr hid0)" and h0: "H hid0 = Some h0"
    and v: "h0 ''available_rooms'' = Some v" and v': "py_add_int v 1 = Inr v'"
  shows "accounted_stores U (H(hid0 \<mapsto> h0(''available_rooms'' \<mapsto> v'))) (R(rid0 := None))"
proof (rule accounted_storesI)
  from h0 acc_domH [OF acc] have in_U: "hid0 \<in> U" by blast
  from acc_domH [OF acc] in_U
  show "dom (H(hid0 \<mapsto> h0(''available_rooms'' \<mapsto> v'))) \<subseteq> U" by auto
  from acc_domR [OF acc] show "dom (R(rid0 := None)) \<subseteq> U" by auto
  from acc_finite [OF acc] show "finite (dom (R(rid0 := None)))" by simp
  {
    fix rid rec assume "(R(rid0 := None)) rid = Some rec"
    then have "R rid = Some rec" by (simp split: if_splits)
    from acc_hotel_id [OF acc this]
    show "\<exists>hid. rec ''hotel_id'' = Some (JStr hid) \<and> hid \<in> U" .
  }
  {
    fix hid h r
    assume h: "(H(hid0 \<mapsto> h0(''available_rooms'' \<mapsto> v'))) hid = Some h"
      and r: "h ''rooms'' = Some (JInt r)"
    show "\<exists>a. h ''available_rooms'' = Some (JInt a) \<and>
           a + int (card (refs (R(rid0 := None)) hid)) = r \<and> (0 \<le> r \<longrightarrow> 0 \<le> a)"
    proof (cases "hid = hid0")
      case True
      with h have heq: "h = h0(''available_rooms'' \<mapsto> v')" by simp
      with r have "h0 ''rooms'' = Some (JInt r)" by simp
      from acc_rooms [OF acc h0 this] v obtain a where
        a: "v = JInt a" "a + int (card (refs R hid0)) = r" "0 \<le> r \<longrightarrow> 0 \<le> a" by auto
      from a(1) v' have v'eq: "v' = JInt (a + 1)" by (simp add: py_add_int_def)
      have fin: "finite (refs R hid0)" by (rule finite_refs [OF acc_finite [OF acc]])
      from rec0 hid0 have mem: "rid0 \<in> refs R hid0" by (auto simp: refs_def)
      from fin mem have "card (refs R hid0) = Suc (card (refs R hid0 - {rid0}))"
        by (rule card.remove)
      then have c: "int (card (refs R hid0)) = int (card (refs (R(rid0 := None)) hid0)) + 1"
        by (simp only: refs_remove of_nat_Suc)
      from heq v'eq have 1: "h ''available_rooms'' = Some (JInt (a + 1))" by simp
      from a(2) c have 2: "(a + 1) + int (card (refs (R(rid0 := None)) hid0)) = r" by arith
      from a(3) have 3: "0 \<le> r \<longrightarrow> 0 \<le> a + 1" by arith
      from 1 2 3 True show ?thesis by blast
    next
      case False
      with h have hh: "H hid = Some h" by simp
      from False rec0 hid0 have "rid0 \<notin> refs R hid" by (auto simp: refs_def)
      then have "refs (R(rid0 := None)) hid = refs R hid" by (simp add: refs_remove)
      with acc_rooms [OF acc hh r] show ?thesis by simp
    qed
  }
qed

subsection \<open>Each operation keeps the accounting\<close>

lemma accounted_transfer:
  assumes "accounted U w"
    and "files w' HOTELS_FILE = files w HOTELS_FILE"
    and "files w' RESERVATIONS_FILE = files w RESERVATIONS_FILE"
  shows "accounted U w'"
  using assms by (simp add: accounted_def hotels_of_def reservations_of_def)

lemma accounted_mono:
  assumes "accounted U w" and "U \<subseteq> U'"
  shows "accounted U' w"
proof -
  from assms(1) have "accounted_stores U (hotels_of w) (reservations_of w)"
    by (simp add: accounted_def)
  from acc_mono [OF this assms(2)] assms(1) show ?thesis
    by (simp add: accounted_def)
qed

lemma accounted_world0: "accounted {} world0"
  by (simp add: accounted_def hotels_of_def reservations_of_def world0_def acc_empty)

lemma step_create_hotel:
  assumes "accounted U w" and "u \<notin> U"
  shows "accounted (insert u U) (snd (create_hotel u n l v w))"
proof -
  from assms(1) have rd: "readable (files w HOTELS_FILE)" "readable (files w RESERVATIONS_FILE)"
    and acc: "accounted_stores U (hotels_of w) (reservations_of w)"
    by (simp_all add: accounted_def)
  from load_data_ex [OF rd(1)] obtain w1 where
    l: "load_data HOTELS_FILE w = (Inr (hotels_of w), w1)" and f: "files w1 = files w"
    by (auto simp: hotels_of_def)
  have eq: "snd (create_hotel u n l v w) =
      save_data HOTELS_FILE ((hotels_of w)(u \<mapsto> hotel_to_dict (Hotel_init u n l v))) w1"
    by (simp add: create_hotel_def l Let_def Hotel_init_def)
  have "reservations_of (snd (create_hotel u n l v w)) = reservations_of w"
    by (simp add: eq reservations_of_def f)
  moreover have "hotels_of (snd (create_hotel u n l v w)) =
      (hotels_of w)(u \<mapsto> hotel_to_dict (Hotel_init u n l v))"
    by (simp add: eq)
  moreover have "readable (files (snd (create_hotel u n l v w)) HOTELS_FILE)"
    "readable (files (snd (create_hotel u n l v w)) RESERVATIONS_FILE)"
    using rd(2) by (simp_all add: eq f)
  ultimately show ?thesis
    using acc_create_hotel [OF acc assms(2)] by (simp add: accounted_def)
qed

lemma step_delete_hotel:
  assumes "accounted U w"
  shows "accounted U (snd (delete_hotel hid w))"
proof -
  from assms(1) have rd: "readable (files w HOTELS_FILE)" "readable (files w RESERVATIONS_FILE)"
    and acc: "accounted_stores U (hotels_of w) (reservations_of w)"
    by (simp_all add: accounted_def)
  from load_data_ex [OF rd(1)] obtain w1 where
    l: "load_data HOTELS_FILE w = (Inr (hotels_of w), w1)" and f: "files w1 = files w"
    by (auto simp: hotels_of_def)
  show ?thesis
  proof (cases "hotels_of w hid")
    case None
    then have "snd (delete_hotel hid w) = w1" by (simp add: delete_hotel_def l)
    with f accounted_transfer [OF assms, of w1] show ?thesis by simp
  next
    case (Some h)
    then have eq: "snd (delete_hotel hid w) =
        save_data HOTELS_FILE ((hotels_of w)(hid := None)) w1"
      by (simp add: delete_hotel_def l)
    have "reservations_of (snd (delete_hotel hid w)) = reservations_of w"
      by (simp add: eq reservations_of_def f)
    moreover have "hotels_of (snd (delete_hotel hid w)) = (hotels_of w)(hid := None)"
      by (simp add: eq)
    moreover have "readable (files (snd (delete_hotel hid w)) HOTELS_FILE)"
      "readable (files (snd (delete_hotel hid w)) RESERVATIONS_FILE)"
      using rd(2) by (simp_all add: eq f)
    ultimately show ?thesis
      using acc_delete_hotel [OF acc, of hid] by (simp add: accounted_def)
  qed
qed

lemma step_customer:
  assumes "accounted U w"
  shows "accounted U (snd (create_customer u n e w))" and "accounted U (snd (delete_customer cid w))"
proof -
  show "accounted U (snd (create_customer u n e w))"
    by (rule accounted_transfer [OF assms]) (simp_all add: create_customer_frame)
  show "accounted U (snd (delete_customer cid w))"
    by (rule accounted_transfer [OF assms]) (simp_all add: delete_customer_frame)
qed

lemma step_create_reservation:
  assumes "accounted U w" and "u \<notin> U"
  shows "accounted (insert u U) (snd (create_reservation u c hid w))"
proof -
  from assms(1) have rd: "readable (files w RESERVATIONS_FILE)" "readable (files w HOTELS_FILE)"
    and acc: "accounted_stores U (hotels_of w) (reservations_of w)"
    by (simp_all add: accounted_def)
  note eq = create_reservation_readable [OF rd, of u c hid]
  have bigger: "accounted (insert u U) w"
    by (rule accounted_mono [OF assms(1)]) blast
  have same: "accounted (insert u U) (after_loads w)"
    "accounted (insert u U) (print_line ''Error: Hotel not found or no available rooms.'' (after_loads w))"
    by (rule accounted_transfer [OF bigger], simp, simp)+
  show ?thesis
  proof (cases "hotels_of w hid")
    case None
    with eq same show ?thesis by simp
  next
    case (Some h)
    note h = this
    show ?thesis
    proof (cases "h ''available_rooms''")
      case None
      with eq h same show ?thesis by simp
    next
      case (Some v)
      note v = this
      show ?thesis
      proof (cases "py_eq_int v 0")
        case True
        with eq h v same show ?thesis by simp
      next
        case False
        show ?thesis
        proof (cases "py_sub_int v 1")
          case (Inl e)
          with eq h v False same show ?thesis by simp
        next
          case (Inr v')
          from acc_reserve [OF acc assms(2) h v False Inr, of c]
          show ?thesis
            using eq h v False Inr by (simp add: accounted_def)
        qed
      qed
    qed
  qed
qed

lemma step_cancel_reservation:
  assumes "accounted U w"
  shows "accounted U (snd (cancel_reservation rid w))"
proof -
  from assms(1) have rd: "readable (files w RESERVATIONS_FILE)" "readable (files w HOTELS_FILE)"
    and acc: "accounted_stores U (hotels_of w) (reservations_of w)"
    by (simp_all add: accounted_def)
  note eq = cancel_reservation_readable [OF rd, of rid]
  have same: "accounted U (after_loads w)"
    by (rule accounted_transfer [OF assms]) simp_all
  show ?thesis
  proof (cases "reservations_of w rid")
    case None
    with eq same show ?thesis by simp
  next
    case (Some rec)
    note rec = this
    from acc_hotel_id [OF acc rec] obtain hid where
      hid: "rec ''hotel_id'' = Some (JStr hid)" by blast
    show ?thesis
    proof (cases "hotels_of w hid")
      case None
      then have "restore_room (JStr hid) (hotels_of w) (after_loads w) = (Inr (), after_loads w)"
        by (simp add: restore_room_absent)
      with eq rec hid have "snd (cancel_reservation rid w) =
          save_data RESERVATIONS_FILE ((reservations_of w)(rid := None)) (after_loads w)"
        by simp
      with acc_cancel_absent [OF acc rec hid None] rd show ?thesis
        by (simp add: accounted_def hotels_of_def)
    next
      case (Some h)
      note h = this
      note rr = restore_room_present [of "hotels_of w" hid h "after_loads w", OF h]
      show ?thesis
      proof (cases "h ''available_rooms''")
        case None
        with eq rec hid rr same show ?thesis by simp
      next
        case (Some v)
        note v = this
        show ?thesis
        proof (cases "py_add_int v 1")
          case (Inl e)
          with eq rec hid rr v same show ?thesis by simp
        next
          case (Inr v')
          with eq rec hid rr v have "snd (cancel_reservation rid w) =
              save_data RESERVATIONS_FILE ((reservations_of w)(rid := None))
                (save_data HOTELS_FILE
                   ((hotels_of w)(hid \<mapsto> h(''available_rooms'' \<mapsto> v'))) (after_loads w))"
            by simp
          with acc_cancel_present [OF acc rec hid h v Inr] show ?thesis
            by (simp add: accounted_def)
        qed
      qed
    qed
  qed
qed

subsection \<open>Every run keeps the accounting\<close>

lemma step_accounted:
  assumes "accounted U w" and "set (drawn c) \<inter> U = {}"
  shows "accounted (U \<union> set (drawn c)) (step c w)"
proof (cases c)
  case (CreateHotel u n l v)
  with assms(2) have "u \<notin> U" by simp
  from step_create_hotel [OF assms(1) this, of n l v] CreateHotel show ?thesis by simp
next
  case (DeleteHotel hid)
  with step_delete_hotel [OF assms(1), of hid] show ?thesis by simp
next
  case (CreateCustomer u n e)
  have "accounted (U \<union> set (drawn c)) w"
    by (rule accounted_mono [OF assms(1)]) blast
  from step_customer(1) [OF this, of u n e] CreateCustomer show ?thesis by simp
next
  case (DeleteCustomer cid)
  with step_customer(2) [OF assms(1), of cid] show ?thesis by simp
next
  case (CreateReservation u cid hid)
  with assms(2) have "u \<notin> U" by simp
  from step_create_reservation [OF assms(1) this, of cid hid] CreateReservation
  show ?thesis by simp
next
  case (CancelReservation rid)
  with step_cancel_reservation [OF assms(1), of rid] show ?thesis by simp
qed

lemma run_accounted:
  assumes "accounted U w" and "distinct (concat (map drawn cs))"
    and "set (concat (map drawn cs)) \<inter> U = {}"
  shows "accounted (U \<union> set (concat (map drawn cs))) (run cs w)"
  using assms
proof (induction cs arbitrary: U w)
  case Nil
  then show ?case by simp
next
  case (Cons c cs)
  from Cons.prems(3) have d1: "set (drawn c) \<inter> U = {}" by auto
  from step_accounted [OF Cons.prems(1) d1]
  have a: "accounted (U \<union> set (drawn c)) (step c w)" .
  from Cons.prems(2) have d2: "distinct (concat (map drawn cs))" by simp
  from Cons.prems(2,3) have d3: "set (concat (map drawn cs)) \<inter> (U \<union> set (drawn c)) = {}"
    by auto
  from Cons.IH [OF a d2 d3]
  have "accounted (U \<union> set (drawn c) \<union> set (concat (map drawn cs))) (run cs (step c w))" .
  moreover have "U \<union> set (drawn c) \<union> set (concat (map drawn cs)) =
      U \<union> set (concat (map drawn (c # cs)))" by auto
  ultimately show ?case by simp
qed

text \<open>
  C1. Under sequential access (any list of calls of the six operations run
  from the empty stores, the ids drawn by \<open>uuid4\<close> pairwise different), every hotel
  record of the hotels store whose \<open>rooms\<close> is an integer that is not negative satisfies
  \<open>0 \<le> available_rooms \<le> rooms\<close>.
\<close>

theorem rooms_within_range:
  assumes "fresh_ids cs" and "hotels_of (run cs world0) hid = Some h"
    and "h ''rooms'' = Some (JInt r)" and "0 \<le> r"
  shows "in_range h"
proof -
  from assms(1) have "distinct (concat (map drawn cs))" by (simp add: fresh_ids_def)
  from run_accounted [OF accounted_world0 this]
  have "accounted ({} \<union> set (concat (map drawn cs))) (run cs world0)" by simp
  then have "accounted_stores ({} \<union> set (concat (map drawn cs)))
      (hotels_of (run cs world0)) (reservations_of (run cs world0))"
    by (simp add: accounted_def)
  from acc_rooms [OF this assms(2,3)] obtain a where
    a: "h ''available_rooms'' = Some (JInt a)"
       "a + int (card (refs (reservations_of (run cs world0)) hid)) = r" "0 \<le> r \<longrightarrow> 0 \<le> a"
    by blast
  from a(2) have "a \<le> r" by arith
  with a(1,3) assms(3,4) show ?thesis by (simp add: in_range_def)
qed

theorem rooms_within_range_witness:
  "fresh_ids [CreateHotel ''h1'' (JStr ''Reserve Hotel'') (JStr ''Chicago'') (JInt 3),
              CreateCustomer ''c1'' (JStr ''Alice'') (JStr ''alice@x.com''),
              CreateReservation ''r1'' (JStr ''c1'') ''h1''] \<and>
   available (run [CreateHotel ''h1'' (JStr ''Reserve Hotel'') (JStr ''Chicago'') (JInt 3),
              CreateCustomer ''c1'' (JStr ''Alice'') (JStr ''alice@x.com''),
              CreateReservation ''r1'' (JStr ''c1'') ''h1''] world0) ''h1'' = Some (JInt 2) \<and>
   hotel_in_range (run [CreateHotel ''h1'' (JStr ''Reserve Hotel'') (JStr ''Chicago'') (JInt 3),
              CreateCustomer ''c1'' (JStr ''Alice'') (JStr ''alice@x.com''),
              CreateReservation ''r1'' (JStr ''c1'') ''h1''] world0) ''h1''"
proof -
  let ?cs = "[CreateHotel ''h1'' (JStr ''Reserve Hotel'') (JStr ''Chicago'') (JInt 3),
              CreateCustomer ''c1'' (JStr ''Alice'') (JStr ''alice@x.com''),
              CreateReservation ''r1'' (JStr ''c1'') ''h1'']"
  let ?h = "(hotel_to_dict (Hotel_init ''h1'' (JStr ''Reserve Hotel'') (JStr ''Chicago'') (JInt 3)))
              (''available_rooms'' \<mapsto> JInt 2)"
  have f: "fresh_ids ?cs" by (simp add: fresh_ids_def)
  have h: "hotels_of (run ?cs world0) ''h1'' = Some ?h"
    by (simp add: hotels_of_def eval_defs)
  have r: "?h ''rooms'' = Some (JInt 3)"
    by (simp add: hotel_to_dict_def Hotel_init_def)
  have a: "?h ''available_rooms'' = Some (JInt 2)" by simp
  have "in_range ?h" by (rule rooms_within_range [OF f h r]) simp
  with f h a show ?thesis by (simp add: hotel_in_range_def available_def field_def)
qed

text \<open>
  \<open>create_hotel\<close> does not check \<open>rooms\<close>: a hotel created from the empty stores with
  \<open>rooms = -1\<close> has \<open>available_rooms = -1\<close>, below zero.
\<close>

theorem rooms_range_counterexample:
  "fresh_ids [CreateHotel ''h2'' (JStr ''Odd Hotel'') (JStr ''NYC'') (JInt (- 1))] \<and>
   available negative_world ''h2'' = Some (JInt (- 1)) \<and>
   \<not> hotel_in_range negative_world ''h2''"
  by (simp add: fresh_ids_def hotel_in_range_def available_def field_def hotels_of_def
        negative_files in_range_def hotel_to_dict_def Hotel_init_def)

end
